theory Spec2Isabelle
  imports Complex_Main "HOL-Library.Sublist"
begin

section \<open>JavaScript strings and JSON values\<close>

text \<open>
  A JavaScript string is a sequence of code units.  The string functions below are
  polymorphic in the code unit, so nothing depends on its width; the program's own literals
  are ASCII or Latin-1 and are written as \<^typ>\<open>string\<close>.
\<close>

text \<open>
  \<open>cut sep s\<close> finds the first occurrence of \<open>sep\<close> in \<open>s\<close> and returns what is before it
  and what is after it, or \<open>None\<close> when \<open>sep\<close> does not occur.
\<close>

fun cut :: "'a list \<Rightarrow> 'a list \<Rightarrow> ('a list \<times> 'a list) option" where
  "cut sep [] = (if sep = [] then Some ([], []) else None)"
| "cut sep (c # cs) =
     (if prefix sep (c # cs) then Some ([], drop (length sep) (c # cs))
      else map_option (\<lambda>(b, a). (c # b, a)) (cut sep cs))"

text \<open>\<open>String.prototype.includes\<close>.\<close>

definition js_includes :: "'a list \<Rightarrow> 'a list \<Rightarrow> bool" where
  "js_includes s t = (cut t s \<noteq> None)"

text \<open>
  \<open>String.prototype.split\<close> with a string separator and no limit: the pieces between the
  successive, non-overlapping occurrences of the separator, found left to right.  An empty
  separator splits into single code units.
\<close>

function js_split :: "'a list \<Rightarrow> 'a list \<Rightarrow> 'a list list" where
  "js_split sep s =
     (if sep = [] then map (\<lambda>c. [c]) s
      else case cut sep s of
             None \<Rightarrow> [s]
           | Some (b, a) \<Rightarrow> b # js_split sep a)"
  by pat_completeness auto
termination
proof (relation "measure (\<lambda>(sep, s). length s)")
  show "wf (measure (\<lambda>(sep :: 'a list, s :: 'a list). length s))"
    by simp
next
  fix sep s :: "'a list" and found b a
  assume nonempty: "sep \<noteq> []" and hit: "cut sep s = Some found" and parts: "(b, a) = found"
  have shorter: "length a' < length s'" if "cut sep s' = Some (b', a')" for s' b' a'
    using that
  proof (induction s' arbitrary: b')
    case Nil
    with nonempty show ?case by simp
  next
    case (Cons c cs)
    show ?case
    proof (cases "prefix sep (c # cs)")
      case True
      with Cons.prems have "a' = drop (length sep) (c # cs)" by simp
      with nonempty show ?thesis by simp
    next
      case False
      with Cons.prems obtain b'' where "cut sep cs = Some (b'', a')"
        by (auto split: prod.splits)
      from Cons.IH [OF this] show ?thesis by simp
    qed
  qed
  from hit parts have "cut sep s = Some (b, a)" by simp
  then have "length a < length s" by (rule shorter)
  then show "((sep, a), (sep, s)) \<in> measure (\<lambda>(sep, s). length s)"
    by simp
qed

declare js_split.simps [simp del]

text \<open>\<open>Array.prototype.join\<close> on an array of strings.\<close>

fun js_join :: "'a list \<Rightarrow> 'a list list \<Rightarrow> 'a list" where
  "js_join sep [] = []"
| "js_join sep [x] = x"
| "js_join sep (x # y # ys) = x @ sep @ js_join sep (y # ys)"

text \<open>
  A value produced by \<open>JSON.parse\<close>.  A number carries the exact value of the double it
  was parsed to; an object lists its members, each key once.
\<close>

datatype json =
    JNull
  | JBool bool
  | JNum rat
  | JStr string
  | JArr "json list"
  | JObj "(string \<times> json) list"

section \<open>The proxy: \<open>GET /api/radio-stats\<close> (server.ts)\<close>

text \<open>
  The options the handler passes to \<open>fetch\<close>.  \<open>agent\<close> is \<open>True\<close> when the request goes
  through \<open>httpsAgent\<close> (certificate errors ignored) and \<open>False\<close> when it is \<open>undefined\<close>;
  \<open>timeout\<close> is in milliseconds.
\<close>

record request =
  url :: string
  user_agent :: string
  accept :: "string option"
  agent :: bool
  timeout :: nat

text \<open>
  What the handler reads of a response: the status, the \<open>content-type\<close> header (\<open>None\<close>
  when \<open>headers.get\<close> returns \<open>null\<close>) and the body, where \<open>Inl m\<close> says that reading the
  body rejects with an error of message \<open>m\<close> and \<open>Inr t\<close> that it yields the text \<open>t\<close>.
\<close>

record response =
  http_status :: nat
  content_type :: "string option"
  body :: "string + string"

datatype fetch_result = Rejected string | Resolved response

text \<open>\<open>response.ok\<close>: the status is in the range 200 to 299.\<close>

definition ok :: "response \<Rightarrow> bool" where
  "ok r = (200 \<le> http_status r \<and> http_status r \<le> 299)"

text \<open>
  The world outside the handler: the network, \<open>JSON.parse\<close> (\<open>None\<close> when it throws), and
  the message of the error with which \<open>response.json()\<close> rejects for a given URL and body.
\<close>

record env =
  fetch :: "request \<Rightarrow> fetch_result"
  JSON_parse :: "string \<Rightarrow> json option"
  json_reject_message :: "string \<Rightarrow> string \<Rightarrow> string"

datatype server_log =
    Attempting string
  | NonJsonContent string string
  | BadStatus string nat
  | FetchFailure string string
  | LegacyFailed

text \<open>
  What the handler has done so far: the requests it issued, in order, the lines it wrote
  to the console, and its variable \<open>lastError\<close> (the message of the error, \<open>None\<close> for
  \<open>null\<close>).
\<close>

record handler_state =
  requests :: "request list"
  console :: "server_log list"
  lastError :: "string option"

record reply =
  status_code :: nat
  payload :: json

definition endpoints :: "string list" where
  "endpoints =
     [''https://streaming.fox.srv.br:8150/stats?json=1'',
      ''https://streaming.fox.srv.br:8150/status-json.xsl'',
      ''http://streaming.fox.srv.br:8150/stats?json=1'']"

definition legacy_url :: string where
  "legacy_url = ''https://streaming.fox.srv.br:8150/7.html''"

definition json_request :: "string \<Rightarrow> request" where
  "json_request u =
     \<lparr>url = u,
      user_agent = ''Mozilla/5.0 (Windows NT 10.0; Win64; x64) AppleWebKit/537.36 (KHTML, like Gecko) Chrome/91.0.4472.124 Safari/537.36'',
      accept = Some ''application/json, text/plain, */*'',
      agent = prefix ''https'' u,
      timeout = 4000\<rparr>"

definition legacy_request :: request where
  "legacy_request =
     \<lparr>url = legacy_url, user_agent = ''Mozilla/5.0'', accept = None, agent = True,
      timeout = 3000\<rparr>"

text \<open>The \<open>catch\<close> of the loop body: log the error and remember it.\<close>

definition caught :: "string \<Rightarrow> string \<Rightarrow> handler_state \<Rightarrow> handler_state" where
  "caught u m st = st\<lparr>console := console st @ [FetchFailure u m], lastError := Some m\<rparr>"

text \<open>\<open>contentType && contentType.includes("application/json")\<close>.\<close>

definition is_json_type :: "string option \<Rightarrow> bool" where
  "is_json_type ct =
     (case ct of None \<Rightarrow> False | Some c \<Rightarrow> c \<noteq> [] \<and> js_includes c ''application/json'')"

text \<open>
  One round of the loop over \<open>endpoints\<close>.  The second component is \<open>Some data\<close> when the
  handler returns \<open>res.json(data)\<close> in this round and \<open>None\<close> when the loop goes on.
\<close>

definition attempt :: "env \<Rightarrow> string \<Rightarrow> handler_state \<Rightarrow> handler_state \<times> json option" where
  "attempt e u st =
     (let st1 = st\<lparr>requests := requests st @ [json_request u],
                    console := console st @ [Attempting u]\<rparr>
      in case fetch e (json_request u) of
           Rejected m \<Rightarrow> (caught u m st1, None)
         | Resolved r \<Rightarrow>
             if ok r then
               if is_json_type (content_type r) then
                 (case body r of
                    Inl m \<Rightarrow> (caught u m st1, None)
                  | Inr text \<Rightarrow>
                      (case JSON_parse e text of
                         None \<Rightarrow> (caught u (json_reject_message e u text) st1, None)
                       | Some d \<Rightarrow> (st1, Some d)))
               else
                 (case body r of
                    Inl m \<Rightarrow> (caught u m st1, None)
                  | Inr text \<Rightarrow>
                      (case JSON_parse e text of
                         None \<Rightarrow>
                           (st1\<lparr>console := console st1 @ [NonJsonContent u (take 100 text)]\<rparr>,
                            None)
                       | Some d \<Rightarrow> (st1, Some d)))
             else (st1\<lparr>console := console st1 @ [BadStatus u (http_status r)]\<rparr>, None))"

text \<open>The \<open>for\<close> loop: it ends at the first round that returns.\<close>

fun endpoint_loop :: "env \<Rightarrow> string list \<Rightarrow> handler_state \<Rightarrow> handler_state \<times> json option" where
  "endpoint_loop e [] st = (st, None)"
| "endpoint_loop e (u # us) st =
     (case attempt e u st of
        (st', Some d) \<Rightarrow> (st', Some d)
      | (st', None) \<Rightarrow> endpoint_loop e us st')"

text \<open>The legacy \<open>7.html\<close> attempt: \<open>listeners,1,max,99,unique,128,Artist - Song\<close>.\<close>

definition legacy :: "env \<Rightarrow> handler_state \<Rightarrow> handler_state \<times> json option" where
  "legacy e st =
     (let st1 = st\<lparr>requests := requests st @ [legacy_request]\<rparr>
      in case fetch e legacy_request of
           Rejected m \<Rightarrow> (st1\<lparr>console := console st1 @ [LegacyFailed]\<rparr>, None)
         | Resolved r \<Rightarrow>
             if ok r then
               (case body r of
                  Inl m \<Rightarrow> (st1\<lparr>console := console st1 @ [LegacyFailed]\<rparr>, None)
                | Inr text \<Rightarrow>
                    (let parts = js_split '','' text
                     in if length parts \<ge> 7
                        then (st1, Some (JObj [(''songtitle'', JStr (parts ! 6))]))
                        else (st1, None)))
             else (st1, None))"

definition failure_reply :: "string option \<Rightarrow> reply" where
  "failure_reply err =
     \<lparr>status_code = 500,
      payload = JObj [(''error'', JStr ''Failed to fetch metadata from all sources''),
                      (''details'', JStr (case err of None \<Rightarrow> ''null'' | Some m \<Rightarrow> m))]\<rparr>"

definition radio_stats :: "env \<Rightarrow> handler_state \<times> reply" where
  "radio_stats e =
     (case endpoint_loop e endpoints \<lparr>requests = [], console = [], lastError = None\<rparr> of
        (st, Some d) \<Rightarrow> (st, \<lparr>status_code = 200, payload = d\<rparr>)
      | (st, None) \<Rightarrow>
          (case legacy e st of
             (st', Some d) \<Rightarrow> (st', \<lparr>status_code = 200, payload = d\<rparr>)
           | (st', None) \<Rightarrow> (st', failure_reply (lastError st'))))"

section \<open>The player: \<open>fetchMetadata\<close> (RadioPlayer component)\<close>

text \<open>
  \<open>data && data.songtitle\<close> reads a member of a parsed value and tests it for truthiness.
  Only an object has a member \<open>songtitle\<close>; on every other non-null value the read gives
  \<open>undefined\<close>, which is \<open>None\<close> here.
\<close>

fun truthy :: "json \<Rightarrow> bool" where
  "truthy JNull = False"
| "truthy (JBool b) = b"
| "truthy (JNum q) = (q \<noteq> 0)"
| "truthy (JStr s) = (s \<noteq> [])"
| "truthy (JArr xs) = True"
| "truthy (JObj kvs) = True"

fun member :: "json \<Rightarrow> string \<Rightarrow> json option" where
  "member (JObj kvs) k = map_of kvs k"
| "member v k = None"

datatype stream_status = online | offline

record RadioMetadata =
  songtitle :: string
  artist :: "string option"
  title :: "string option"
  cover :: "string option"
  status :: stream_status

record HistoryItem =
  item_songtitle :: string
  item_artist :: string
  item_cover :: "string option"
  timestamp :: nat

text \<open>What the \<open>try\<close> block of \<open>fetchMetadata\<close> can throw into its \<open>catch\<close>.\<close>

datatype thrown =
    FetchFailed string
  | JsonFailed string
  | NotAFunction

datatype client_log =
    MetadataFetchError thrown
  | CoverError string
  | DeezerFailed

text \<open>
  The state of the component in components/RadioPlayer.tsx (its \<open>useState\<close> cells), the
  \<open>radio_liked\<close> key of local storage and the console.  \<open>progress\<close> moves in steps of one
  half.
\<close>

record player_base =
  isPlaying :: bool
  volume :: nat
  isMuted :: bool
  isLiked :: bool
  metadata :: RadioMetadata
  isLoading :: bool
  progress :: rat
  radio_liked :: "string option"
  browser_console :: "client_log list"

text \<open>
  The later revision of the component (the second source file of the player) adds the
  trivia, the lyrics and the play history, and the \<open>radio_history\<close> key of local storage.
  The key holds the list that was passed to \<open>JSON.stringify\<close>; \<open>None\<close> is an absent key.
\<close>

record player = player_base +
  aiInsight :: "string option"
  isAiLoading :: bool
  history :: "HistoryItem list"
  showHistory :: bool
  lyrics :: "string option"
  showLyrics :: bool
  isLyricsLoading :: bool
  radio_history :: "HistoryItem list option"

text \<open>
  The outcome of \<open>await fetch(METADATA_URL)\<close> followed by \<open>await response.json()\<close>: the first
  rejects, or the second rejects, or \<open>data\<close> is there.
\<close>

datatype metadata_response =
    FetchRejected string
  | JsonRejected string
  | Data json

text \<open>
  \<open>const [artistName, ...songParts] = data.songtitle.split(' - ')\<close>: destructuring an empty
  array would leave \<open>artistName\<close> undefined and \<open>songParts\<close> empty.
\<close>

definition artistName :: "string \<Rightarrow> string option" where
  "artistName st = (case js_split '' - '' st of [] \<Rightarrow> None | a # ps \<Rightarrow> Some a)"

definition songParts :: "string \<Rightarrow> string list" where
  "songParts st = (case js_split '' - '' st of [] \<Rightarrow> [] | a # ps \<Rightarrow> ps)"

text \<open>\<open>songParts.join(' - ') || data.songtitle\<close>.\<close>

definition songTitle :: "string \<Rightarrow> string" where
  "songTitle st = (let j = js_join '' - '' (songParts st) in if j \<noteq> [] then j else st)"

text \<open>\<open>artistName || dflt\<close>, where the default is the station's name.\<close>

definition artist_or :: "string \<Rightarrow> string \<Rightarrow> string" where
  "artist_or dflt st =
     (case artistName st of None \<Rightarrow> dflt | Some a \<Rightarrow> if a \<noteq> [] then a else dflt)"

definition SoundPop :: string where
  "SoundPop = ''SoundPop''"

definition Radio_Fox :: string where
  "Radio_Fox = ''R'' @ [CHR 0xE1] @ ''dio Fox''"

text \<open>The \<open>catch\<close> of \<open>fetchMetadata\<close>, in the two revisions of the component.\<close>

definition metadataError :: "thrown \<Rightarrow> player \<Rightarrow> player" where
  "metadataError err p =
     p\<lparr>browser_console := browser_console p @ [MetadataFetchError err],
       metadata := (metadata p)\<lparr>status := online,
                                 songtitle := ''Erro ao carregar metadados'',
                                 artist := Some SoundPop\<rparr>\<rparr>"

definition metadataError0 :: "thrown \<Rightarrow> player_base \<Rightarrow> player_base" where
  "metadataError0 err p =
     p\<lparr>browser_console := browser_console p @ [MetadataFetchError err],
       metadata := (metadata p)\<lparr>status := online,
                                 songtitle := ''Sintonizando...'',
                                 artist := Some Radio_Fox\<rparr>\<rparr>"

text \<open>
  The updater passed to \<open>setHistory\<close>, with its write to local storage: a track equal to
  the head in title and artist leaves everything as it is.
\<close>

definition setHistory :: "string \<Rightarrow> string \<Rightarrow> string option \<Rightarrow> nat \<Rightarrow> player \<Rightarrow> player" where
  "setHistory t a coverUrl now p =
     (let prev = history p
      in if (case prev of [] \<Rightarrow> False
             | lastItem # rest \<Rightarrow> item_songtitle lastItem = t \<and> item_artist lastItem = a)
         then p
         else let newItem = \<lparr>item_songtitle = t, item_artist = a, item_cover = coverUrl,
                              timestamp = now\<rparr>;
                  updatedHistory = take 10 (newItem # prev)
              in p\<lparr>history := updatedHistory, radio_history := Some updatedHistory\<rparr>)"

text \<open>
  \<open>fetchMetadata\<close> of the later revision.  The cover lookup asks two third-party catalogues
  inside a \<open>try\<close> of its own, so whatever happens there the function goes on with
  \<open>coverUrl\<close> a string or undefined; the lookup is the parameter \<open>coverArt\<close>, from the artist
  and the title to \<open>coverUrl\<close> and the console lines written.  \<open>now\<close> is \<open>Date.now()\<close>.
\<close>

definition fetchMetadata ::
  "(string \<Rightarrow> string \<Rightarrow> string option \<times> client_log list) \<Rightarrow> metadata_response \<Rightarrow> nat \<Rightarrow>
   player \<Rightarrow> player" where
  "fetchMetadata coverArt resp now p =
     (case resp of
        FetchRejected m \<Rightarrow> metadataError (FetchFailed m) p
      | JsonRejected m \<Rightarrow> metadataError (JsonFailed m) p
      | Data data \<Rightarrow>
          (case (if truthy data then member data ''songtitle'' else None) of
             None \<Rightarrow> p
           | Some v \<Rightarrow>
               if \<not> truthy v then p
               else
                 (case v of
                    JStr st \<Rightarrow>
                      (let t = songTitle st;
                           a = artist_or SoundPop st;
                           (coverUrl, logs) = coverArt a t
                       in setHistory t a coverUrl now
                            (p\<lparr>browser_console := browser_console p @ logs,
                               metadata := \<lparr>songtitle = t, artist = Some a, title = None,
                                            cover = coverUrl, status = online\<rparr>,
                               lyrics := None,
                               showLyrics := False\<rparr>))
                  | _ \<Rightarrow> metadataError NotAFunction p)))"

text \<open>\<open>fetchMetadata\<close> of components/RadioPlayer.tsx: no cover, no history.\<close>

definition fetchMetadata0 :: "metadata_response \<Rightarrow> player_base \<Rightarrow> player_base" where
  "fetchMetadata0 resp p =
     (case resp of
        FetchRejected m \<Rightarrow> metadataError0 (FetchFailed m) p
      | JsonRejected m \<Rightarrow> metadataError0 (JsonFailed m) p
      | Data data \<Rightarrow>
          (case (if truthy data then member data ''songtitle'' else None) of
             None \<Rightarrow> p
           | Some v \<Rightarrow>
               if \<not> truthy v then p
               else
                 (case v of
                    JStr st \<Rightarrow>
                      p\<lparr>metadata := \<lparr>songtitle = songTitle st,
                                     artist = Some (artist_or Radio_Fox st),
                                     title = None, cover = None, status = online\<rparr>\<rparr>
                  | _ \<Rightarrow> metadataError0 NotAFunction p)))"

text \<open>
  Mounting the component: every cell takes its initial value, then the persistence effect
  reads the two keys of local storage.  The console is the browser's and is kept.
\<close>

definition mount :: "string option \<Rightarrow> HistoryItem list option \<Rightarrow> client_log list \<Rightarrow> player" where
  "mount savedLike savedHistory con =
     \<lparr>isPlaying = False, volume = 80, isMuted = False,
      isLiked = (savedLike = Some ''true''),
      metadata = \<lparr>songtitle = ''Carregando...'', artist = None, title = None, cover = None,
                  status = offline\<rparr>,
      isLoading = True, progress = 0,
      radio_liked = savedLike, browser_console = con,
      aiInsight = None, isAiLoading = False,
      history = (case savedHistory of None \<Rightarrow> [] | Some h \<Rightarrow> h),
      showHistory = False, lyrics = None, showLyrics = False, isLyricsLoading = False,
      radio_history = savedHistory\<rparr>"

text \<open>
  What happens to a browser over time: the page is loaded (again), or a poll of the
  metadata endpoint completes with a response at a time of the clock.
\<close>

datatype event = Mount | Poll metadata_response nat

fun run ::
  "(string \<Rightarrow> string \<Rightarrow> string option \<times> client_log list) \<Rightarrow> event list \<Rightarrow> player \<Rightarrow> player" where
  "run coverArt [] p = p"
| "run coverArt (Mount # es) p =
     run coverArt es (mount (radio_liked p) (radio_history p) (browser_console p))"
| "run coverArt (Poll resp now # es) p = run coverArt es (fetchMetadata coverArt resp now p)"

text \<open>The first load of the page in a browser whose local storage is empty.\<close>

definition fresh :: player where
  "fresh = mount None None []"

section \<open>The timers of the player\<close>

text \<open>
  The effect that fetches the metadata is the same in both revisions of the component:
  \<^verbatim>\<open>fetchMetadata(); const interval = setInterval(fetchMetadata, 10000);\<close>
  \<^verbatim>\<open>return () => clearInterval(interval);\<close>
  Its dependency list is empty, so it runs once, when the component is mounted, and its
  interval is cleared when the component is unmounted.  What an effect asks of the runtime
  is a list of calls: run a callback now, or register an interval with a period in
  milliseconds.  The only other timer of the component advances the progress bar each
  second while the stream plays.
\<close>

datatype callback = FetchMetadata | AdvanceProgress

datatype runtime_call = Call callback | SetInterval callback nat

fun callback_of :: "runtime_call \<Rightarrow> callback" where
  "callback_of (Call f) = f"
| "callback_of (SetInterval f d) = f"

definition metadata_effect :: "runtime_call list" where
  "metadata_effect = [Call FetchMetadata, SetInterval FetchMetadata 10000]"

definition progress_effect :: "bool \<Rightarrow> runtime_call list" where
  "progress_effect playing = (if playing then [SetInterval AdvanceProgress 1000] else [])"

text \<open>
  The runtime's side: a call made at the time \<open>t0\<close> runs its callback at \<open>t0\<close>; an interval
  registered at \<open>t0\<close> with the period \<open>d\<close> runs its callback at \<open>t0 + d\<close>, \<open>t0 + 2 d\<close> and so
  on, here for the \<open>n\<close> ticks that pass before it is cleared.
\<close>

fun runs :: "nat \<Rightarrow> nat \<Rightarrow> runtime_call \<Rightarrow> nat list" where
  "runs t0 n (Call f) = [t0]"
| "runs t0 n (SetInterval f d) = map (\<lambda>k. t0 + k * d) [1..<Suc n]"

text \<open>
  The times at which \<open>fetchMetadata\<close> starts when the component is mounted at \<open>t0\<close> and
  unmounted after \<open>n\<close> ticks of its timers, whether the stream plays or not.
\<close>

definition fetch_times :: "bool \<Rightarrow> nat \<Rightarrow> nat \<Rightarrow> nat list" where
  "fetch_times playing t0 n =
     concat (map (runs t0 n)
       (filter (\<lambda>c. callback_of c = FetchMetadata)
          (metadata_effect @ progress_effect playing)))"

section \<open>Notions of the specification\<close>

text \<open>
  An endpoint \<open>u\<close> responds ok with a JSON-parseable body: the request resolves, the status
  is ok, the body can be read and \<open>JSON.parse\<close> accepts it.  \<open>parsed_body e u\<close> is then the
  parsed body, and \<open>None\<close> otherwise.
\<close>

definition parsed_body :: "env \<Rightarrow> string \<Rightarrow> json option" where
  "parsed_body e u =
     (case fetch e (json_request u) of
        Rejected m \<Rightarrow> None
      | Resolved r \<Rightarrow>
          if ok r then (case body r of Inl m \<Rightarrow> None | Inr text \<Rightarrow> JSON_parse e text)
          else None)"

text \<open>
  The legacy attempt succeeds: the request for \<open>7.html\<close> resolves with an ok status and a
  readable body of at least seven comma-delimited fields.  \<open>legacy_songtitle e\<close> is then the
  seventh field.
\<close>

definition legacy_songtitle :: "env \<Rightarrow> string option" where
  "legacy_songtitle e =
     (case fetch e legacy_request of
        Rejected m \<Rightarrow> None
      | Resolved r \<Rightarrow>
          if ok r then
            (case body r of
               Inl m \<Rightarrow> None
             | Inr text \<Rightarrow>
                 if 7 \<le> length (js_split '','' text) then Some (js_split '','' text ! 6)
                 else None)
          else None)"

text \<open>The times of the clock at which the polls of a browser's life complete.\<close>

fun poll_times :: "event list \<Rightarrow> nat list" where
  "poll_times [] = []"
| "poll_times (Mount # es) = poll_times es"
| "poll_times (Poll resp now # es) = now # poll_times es"

text \<open>
  What holds of every state a browser reaches: the history has at most ten entries and is
  what local storage holds.
\<close>

definition stored :: "player \<Rightarrow> bool" where
  "stored p =
     (length (history p) \<le> 10 \<and>
      (case radio_history p of None \<Rightarrow> [] | Some h \<Rightarrow> h) = history p)"

text \<open>Newest first, by the time stamps.\<close>

definition newest_first :: "HistoryItem list \<Rightarrow> bool" where
  "newest_first h = sorted_wrt (\<lambda>x y. timestamp y \<le> timestamp x) h"

section \<open>Concrete situations\<close>

text \<open>A \<open>JSON.parse\<close> that knows two texts, and a message for \<open>response.json()\<close>.\<close>

definition parse_demo :: "string \<Rightarrow> json option" where
  "parse_demo t =
     (if t = ''{}'' then Some (JObj []) else if t = ''[]'' then Some (JArr []) else None)"

definition message_demo :: "string \<Rightarrow> string \<Rightarrow> string" where
  "message_demo u t = ''invalid json response body''"

text \<open>The streaming server is down: every request is refused.\<close>

definition env_down :: env where
  "env_down =
     \<lparr>fetch = (\<lambda>rq. Rejected ''ECONNREFUSED''),
      JSON_parse = parse_demo, json_reject_message = message_demo\<rparr>"

text \<open>Only \<open>status-json.xsl\<close> answers, with an empty object served as HTML.\<close>

definition env_second :: env where
  "env_second =
     \<lparr>fetch = (\<lambda>rq. if url rq = ''https://streaming.fox.srv.br:8150/status-json.xsl''
                     then Resolved \<lparr>http_status = 200, content_type = Some ''text/html'',
                                    body = Inr ''{}''\<rparr>
                     else Rejected ''ECONNREFUSED''),
      JSON_parse = parse_demo, json_reject_message = message_demo\<rparr>"

text \<open>Only \<open>7.html\<close> answers, with a status line.\<close>

definition env_legacy :: env where
  "env_legacy =
     \<lparr>fetch = (\<lambda>rq. if url rq = ''https://streaming.fox.srv.br:8150/7.html''
                     then Resolved \<lparr>http_status = 200, content_type = None,
                                    body = Inr ''1,1,5,99,1,128,Artist - Song''\<rparr>
                     else Rejected ''ECONNREFUSED''),
      JSON_parse = parse_demo, json_reject_message = message_demo\<rparr>"

text \<open>Only \<open>7.html\<close> answers, with status 404 and a body of seven fields.\<close>

definition env_legacy_404 :: env where
  "env_legacy_404 =
     \<lparr>fetch = (\<lambda>rq. if url rq = ''https://streaming.fox.srv.br:8150/7.html''
                     then Resolved \<lparr>http_status = 404, content_type = None,
                                    body = Inr ''a,b,c,d,e,f,g''\<rparr>
                     else Rejected ''ECONNREFUSED''),
      JSON_parse = parse_demo, json_reject_message = message_demo\<rparr>"

text \<open>A cover lookup that finds nothing and logs nothing.\<close>

definition no_cover :: "string \<Rightarrow> string \<Rightarrow> string option \<times> client_log list" where
  "no_cover a t = (None, [])"

text \<open>A cover lookup that always finds the same picture.\<close>

definition found_cover :: "string \<Rightarrow> string \<Rightarrow> string option \<times> client_log list" where
  "found_cover a t = (Some ''https://example.org/600x600.jpg'', [])"

definition now_playing :: "string \<Rightarrow> metadata_response" where
  "now_playing st = Data (JObj [(''songtitle'', JStr st)])"

text \<open>A browser's life: two polls of one track, a reload, a new track, a failed poll.\<close>

definition demo_events :: "event list" where
  "demo_events =
     [Poll (now_playing ''A - B'') 1000, Poll (now_playing ''A - B'') 2000, Mount,
      Poll (now_playing ''C - D - E'') 3000, Poll (FetchRejected ''Failed to fetch'') 4000]"

text \<open>Eleven polls, each of a new track, at the times 1 to 11.\<close>

definition busy_events :: "event list" where
  "busy_events = map (\<lambda>n. Poll (now_playing (replicate n (CHR ''a''))) n) [1..<12]"

section \<open>The fallback sequence of the proxy\<close>

lemma attempt_result: "snd (attempt e u st) = parsed_body e u"
  by (simp add: attempt_def parsed_body_def Let_def
      split: fetch_result.splits sum.splits option.splits)

lemma attempt_requests: "requests (fst (attempt e u st)) = requests st @ [json_request u]"
  by (simp add: attempt_def caught_def Let_def
      split: fetch_result.splits sum.splits option.splits)

lemma loop_all_fail:
  "\<forall>u\<in>set us. parsed_body e u = None \<Longrightarrow>
   snd (endpoint_loop e us st) = None \<and>
   requests (fst (endpoint_loop e us st)) = requests st @ map json_request us"
proof (induction us arbitrary: st)
  case Nil
  then show ?case by simp
next
  case (Cons u us)
  obtain st' r where a: "attempt e u st = (st', r)"
    by (cases "attempt e u st")
  from Cons.prems have "parsed_body e u = None" by simp
  with a attempt_result [of e u st] have r: "r = None" by simp
  from a attempt_requests [of e u st]
  have q: "requests st' = requests st @ [json_request u]" by simp
  from Cons.prems have "\<forall>v\<in>set us. parsed_body e v = None" by simp
  from Cons.IH [OF this, of st'] a r q show ?case by simp
qed

lemma loop_first_success:
  "\<forall>v\<in>set pre. parsed_body e v = None \<Longrightarrow> parsed_body e u = Some d \<Longrightarrow>
   snd (endpoint_loop e (pre @ u # post) st) = Some d \<and>
   requests (fst (endpoint_loop e (pre @ u # post) st)) =
     requests st @ map json_request (pre @ [u])"
proof (induction pre arbitrary: st)
  case Nil
  obtain st' r where a: "attempt e u st = (st', r)"
    by (cases "attempt e u st")
  with attempt_result [of e u st] Nil.prems have r: "r = Some d" by simp
  from a attempt_requests [of e u st]
  have q: "requests st' = requests st @ [json_request u]" by simp
  from a r q show ?case by simp
next
  case (Cons v pre)
  obtain st' r where a: "attempt e v st = (st', r)"
    by (cases "attempt e v st")
  from Cons.prems have "parsed_body e v = None" by simp
  with a attempt_result [of e v st] have r: "r = None" by simp
  from a attempt_requests [of e v st]
  have q: "requests st' = requests st @ [json_request v]" by simp
  from Cons.prems have "\<forall>w\<in>set pre. parsed_body e w = None" by simp
  from Cons.IH [OF this Cons.prems(2), of st'] a r q show ?case by simp
qed

lemma legacy_result:
  "snd (legacy e st) =
     map_option (\<lambda>f. JObj [(''songtitle'', JStr f)]) (legacy_songtitle e)"
  by (simp add: legacy_def legacy_songtitle_def Let_def
      split: fetch_result.splits sum.splits)

lemma legacy_requests: "requests (fst (legacy e st)) = requests st @ [legacy_request]"
  by (simp add: legacy_def Let_def split: fetch_result.splits sum.splits)

lemma url_json_request: "map url (map json_request us) = us"
  by (induction us) (simp_all add: json_request_def)

text \<open>The handler when some endpoint succeeds, and when none does.\<close>

lemma radio_stats_success:
  assumes "endpoints = pre @ u # post"
    and "\<forall>v\<in>set pre. parsed_body e v = None"
    and "parsed_body e u = Some d"
  shows "radio_stats e =
           (fst (endpoint_loop e endpoints \<lparr>requests = [], console = [], lastError = None\<rparr>),
            \<lparr>status_code = 200, payload = d\<rparr>)"
    and "requests (fst (radio_stats e)) = map json_request (pre @ [u])"
proof -
  let ?st = "\<lparr>requests = [], console = [], lastError = None\<rparr>"
  obtain st' r where l: "endpoint_loop e endpoints ?st = (st', r)"
    by (cases "endpoint_loop e endpoints ?st")
  from loop_first_success [OF assms(2,3), of post ?st] assms(1) l
  have r: "r = Some d" and q: "requests st' = map json_request (pre @ [u])"
    by simp_all
  from l r show "radio_stats e =
           (fst (endpoint_loop e endpoints ?st), \<lparr>status_code = 200, payload = d\<rparr>)"
    by (simp add: radio_stats_def)
  from l r q show "requests (fst (radio_stats e)) = map json_request (pre @ [u])"
    by (simp add: radio_stats_def)
qed

lemma radio_stats_all_fail:
  assumes "\<forall>u\<in>set endpoints. parsed_body e u = None"
  shows "requests (fst (radio_stats e)) = map json_request endpoints @ [legacy_request]"
    and "snd (radio_stats e) =
           (case legacy_songtitle e of
              None \<Rightarrow> failure_reply (lastError (fst (radio_stats e)))
            | Some f \<Rightarrow> \<lparr>status_code = 200, payload = JObj [(''songtitle'', JStr f)]\<rparr>)"
proof -
  let ?st = "\<lparr>requests = [], console = [], lastError = None\<rparr>"
  obtain st' r where l: "endpoint_loop e endpoints ?st = (st', r)"
    by (cases "endpoint_loop e endpoints ?st")
  from loop_all_fail [OF assms, of ?st] l
  have r: "r = None" and q: "requests st' = map json_request endpoints"
    by simp_all
  obtain st'' r' where g: "legacy e st' = (st'', r')"
    by (cases "legacy e st'")
  from g legacy_result [of e st'] legacy_requests [of e st']
  have r': "r' = map_option (\<lambda>f. JObj [(''songtitle'', JStr f)]) (legacy_songtitle e)"
    and q': "requests st'' = requests st' @ [legacy_request]"
    by simp_all
  from l r g q q' show "requests (fst (radio_stats e)) =
      map json_request endpoints @ [legacy_request]"
    by (simp add: radio_stats_def split: option.splits)
  from l r g r' show "snd (radio_stats e) =
           (case legacy_songtitle e of
              None \<Rightarrow> failure_reply (lastError (fst (radio_stats e)))
            | Some f \<Rightarrow> \<lparr>status_code = 200, payload = JObj [(''songtitle'', JStr f)]\<rparr>)"
    by (simp add: radio_stats_def split: option.splits)
qed

text \<open>Either some endpoint is the first to succeed, or all fail.\<close>

lemma first_success_cases:
  obtains (fail) "\<forall>u\<in>set us. parsed_body e u = None"
  | (success) pre u post d where "us = pre @ u # post"
      "\<forall>v\<in>set pre. parsed_body e v = None" "parsed_body e u = Some d"
proof (cases "\<forall>u\<in>set us. parsed_body e u = None")
  case True
  then show ?thesis by (rule fail)
next
  case False
  then have "\<exists>u\<in>set us. parsed_body e u \<noteq> None" by simp
  then obtain pre u post where "us = pre @ u # post" "parsed_body e u \<noteq> None"
    "\<forall>v\<in>set pre. \<not> parsed_body e v \<noteq> None"
    by (auto simp: split_list_first_prop_iff)
  then show ?thesis by (auto intro: success)
qed

lemma url_of_json_request: "map (url \<circ> json_request) us = us"
  by (induction us) (simp_all add: json_request_def)

lemma legacy_url_not_endpoint: "legacy_url \<notin> set endpoints"
  by (simp add: legacy_url_def endpoints_def)

lemma legacy_request_not_json: "legacy_request \<notin> set (map json_request us)"
  by (auto simp: legacy_request_def json_request_def)

lemma reached_legacy:
  assumes "legacy_request \<in> set (requests (fst (radio_stats e)))"
  shows "\<forall>u\<in>set endpoints. parsed_body e u = None"
proof (cases rule: first_success_cases [of endpoints e])
  case fail
  then show ?thesis .
next
  case (success pre u post d)
  from radio_stats_success(2) [OF success] assms
  have "legacy_request \<in> set (map json_request (pre @ [u]))" by simp
  with legacy_request_not_json show ?thesis by blast
qed

text \<open>
  Claim C1.  For every request the proxy tries the endpoints in the order of \<open>endpoints\<close>:
  the HTTPS \<open>stats?json=1\<close>, the HTTPS \<open>status-json.xsl\<close>, the HTTP \<open>stats?json=1\<close>.
  At the first endpoint that responds ok with a JSON-parseable body it stops, having
  requested exactly the endpoints up to that one, and replies with the parsed body.  When
  all three fail it goes on to the legacy \<open>7.html\<close>, and it requests \<open>7.html\<close> only then.
\<close>

theorem fallback_order:
  "(i < length endpoints \<and> (\<forall>j<i. parsed_body e (endpoints ! j) = None) \<and>
      parsed_body e (endpoints ! i) = Some d
    \<longrightarrow> map url (requests (fst (radio_stats e))) = take (Suc i) endpoints \<and>
        snd (radio_stats e) = \<lparr>status_code = 200, payload = d\<rparr>)
   \<and> ((\<forall>u\<in>set endpoints. parsed_body e u = None)
    \<longrightarrow> map url (requests (fst (radio_stats e))) =
          [''https://streaming.fox.srv.br:8150/stats?json=1'',
           ''https://streaming.fox.srv.br:8150/status-json.xsl'',
           ''http://streaming.fox.srv.br:8150/stats?json=1'',
           ''https://streaming.fox.srv.br:8150/7.html''])
   \<and> (''https://streaming.fox.srv.br:8150/7.html''
          \<in> set (map url (requests (fst (radio_stats e))))
    \<longrightarrow> (\<forall>u\<in>set endpoints. parsed_body e u = None))"
proof (intro conjI impI)
  assume a: "i < length endpoints \<and> (\<forall>j<i. parsed_body e (endpoints ! j) = None) \<and>
      parsed_body e (endpoints ! i) = Some d"
  then have split: "endpoints = take i endpoints @ endpoints ! i # drop (Suc i) endpoints"
    by (simp add: id_take_nth_drop)
  from a have before: "\<forall>v\<in>set (take i endpoints). parsed_body e v = None"
    by (auto simp: in_set_conv_nth)
  from a have here: "parsed_body e (endpoints ! i) = Some d" by simp
  from radio_stats_success(2) [OF split before here]
  have "map url (requests (fst (radio_stats e))) = take i endpoints @ [endpoints ! i]"
    by (simp only: url_json_request)
  with a show "map url (requests (fst (radio_stats e))) = take (Suc i) endpoints"
    by (simp add: take_Suc_conv_app_nth)
  from radio_stats_success(1) [OF split before here]
  show "snd (radio_stats e) = \<lparr>status_code = 200, payload = d\<rparr>" by simp
next
  assume "\<forall>u\<in>set endpoints. parsed_body e u = None"
  from radio_stats_all_fail(1) [OF this]
  have "map url (requests (fst (radio_stats e))) = endpoints @ [legacy_url]"
    by (simp add: url_of_json_request legacy_request_def)
  then show "map url (requests (fst (radio_stats e))) =
          [''https://streaming.fox.srv.br:8150/stats?json=1'',
           ''https://streaming.fox.srv.br:8150/status-json.xsl'',
           ''http://streaming.fox.srv.br:8150/stats?json=1'',
           ''https://streaming.fox.srv.br:8150/7.html'']"
    by (simp add: endpoints_def legacy_url_def)
next
  assume reached: "''https://streaming.fox.srv.br:8150/7.html''
          \<in> set (map url (requests (fst (radio_stats e))))"
  show "\<forall>u\<in>set endpoints. parsed_body e u = None"
  proof (cases rule: first_success_cases [of endpoints e])
    case fail
    then show ?thesis .
  next
    case (success pre u post d)
    from radio_stats_success(2) [OF success]
    have "map url (requests (fst (radio_stats e))) = pre @ [u]"
      by (simp only: url_json_request)
    with reached have "legacy_url \<in> set (pre @ [u])"
      by (simp add: legacy_url_def)
    moreover have "set (pre @ [u]) \<subseteq> set endpoints"
      by (subst success(1)) auto
    ultimately have "legacy_url \<in> set endpoints" by blast
    with legacy_url_not_endpoint show ?thesis by blast
  qed
qed

lemma env_second_bodies:
  "parsed_body env_second (endpoints ! 0) = None"
  "parsed_body env_second (endpoints ! 1) = Some (JObj [])"
  by (simp_all add: parsed_body_def env_second_def endpoints_def json_request_def ok_def
      parse_demo_def)

lemma env_down_bodies: "parsed_body env_down u = None"
  by (simp add: parsed_body_def env_down_def)

text \<open>Claim C1 where only the second endpoint answers, and where the server is down.\<close>

theorem fallback_order_witness:
  "parsed_body env_second (endpoints ! 0) = None \<and>
   parsed_body env_second (endpoints ! 1) = Some (JObj []) \<and>
   map url (requests (fst (radio_stats env_second))) =
     [''https://streaming.fox.srv.br:8150/stats?json=1'',
      ''https://streaming.fox.srv.br:8150/status-json.xsl''] \<and>
   snd (radio_stats env_second) = \<lparr>status_code = 200, payload = JObj []\<rparr> \<and>
   list_all (\<lambda>u. parsed_body env_down u = None) endpoints \<and>
   map url (requests (fst (radio_stats env_down))) =
     [''https://streaming.fox.srv.br:8150/stats?json=1'',
      ''https://streaming.fox.srv.br:8150/status-json.xsl'',
      ''http://streaming.fox.srv.br:8150/stats?json=1'',
      ''https://streaming.fox.srv.br:8150/7.html'']"
proof -
  have len: "(1::nat) < length endpoints" by (simp add: endpoints_def)
  have before: "\<forall>j<1. parsed_body env_second (endpoints ! j) = None"
    by (simp add: env_second_bodies)
  have down: "\<forall>u\<in>set endpoints. parsed_body env_down u = None"
    by (simp add: env_down_bodies)
  have two: "take (Suc 1) endpoints =
     [''https://streaming.fox.srv.br:8150/stats?json=1'',
      ''https://streaming.fox.srv.br:8150/status-json.xsl'']"
    by (simp add: endpoints_def)
  from fallback_order [of 1 env_second "JObj []"] len before env_second_bodies(2) two
  have "map url (requests (fst (radio_stats env_second))) =
     [''https://streaming.fox.srv.br:8150/stats?json=1'',
      ''https://streaming.fox.srv.br:8150/status-json.xsl'']"
    and "snd (radio_stats env_second) = \<lparr>status_code = 200, payload = JObj []\<rparr>"
    by simp_all
  moreover from fallback_order [of 0 env_down JNull] down
  have "map url (requests (fst (radio_stats env_down))) =
     [''https://streaming.fox.srv.br:8150/stats?json=1'',
      ''https://streaming.fox.srv.br:8150/status-json.xsl'',
      ''http://streaming.fox.srv.br:8150/stats?json=1'',
      ''https://streaming.fox.srv.br:8150/7.html'']"
    by blast
  moreover from down have "list_all (\<lambda>u. parsed_body env_down u = None) endpoints"
    by (simp add: list_all_iff)
  ultimately show ?thesis
    using env_second_bodies by blast
qed

section \<open>The legacy attempt, the failure reply and the timeouts\<close>

lemma env_legacy_bodies: "\<forall>u\<in>set endpoints. parsed_body env_legacy u = None"
  by (simp add: endpoints_def parsed_body_def env_legacy_def json_request_def)

lemma env_legacy_404_bodies: "\<forall>u\<in>set endpoints. parsed_body env_legacy_404 u = None"
  by (simp add: endpoints_def parsed_body_def env_legacy_404_def json_request_def)

lemma status_line_fields:
  "js_split '','' ''1,1,5,99,1,128,Artist - Song'' =
     [''1'', ''1'', ''5'', ''99'', ''1'', ''128'', ''Artist - Song'']"
  by code_simp

lemma seven_letters_fields:
  "js_split '','' ''a,b,c,d,e,f,g'' = [''a'', ''b'', ''c'', ''d'', ''e'', ''f'', ''g'']"
  by code_simp

text \<open>
  Claim C2 as it is stated fails.  Here the three JSON endpoints are down and \<open>7.html\<close>
  answers with status 404 and the body \<open>a,b,c,d,e,f,g\<close>: the legacy attempt is reached, the
  body splits into seven fields, and the reply is the failure with status 500, not the
  seventh field.
\<close>

theorem legacy_reply_counterexample:
  "legacy_request \<in> set (requests (fst (radio_stats env_legacy_404))) \<and>
   fetch env_legacy_404 legacy_request =
     Resolved \<lparr>http_status = 404, content_type = None, body = Inr ''a,b,c,d,e,f,g''\<rparr> \<and>
   length (js_split '','' ''a,b,c,d,e,f,g'') = 7 \<and>
   js_split '','' ''a,b,c,d,e,f,g'' ! 6 = ''g'' \<and>
   status_code (snd (radio_stats env_legacy_404)) = 500 \<and>
   snd (radio_stats env_legacy_404) \<noteq>
     \<lparr>status_code = 200, payload = JObj [(''songtitle'', JStr ''g'')]\<rparr>"
proof -
  note all = env_legacy_404_bodies
  have f: "fetch env_legacy_404 legacy_request =
     Resolved \<lparr>http_status = 404, content_type = None, body = Inr ''a,b,c,d,e,f,g''\<rparr>"
    by (simp add: env_legacy_404_def legacy_request_def legacy_url_def)
  then have none: "legacy_songtitle env_legacy_404 = None"
    by (simp add: legacy_songtitle_def ok_def)
  from radio_stats_all_fail(1) [OF all]
  have "legacy_request \<in> set (requests (fst (radio_stats env_legacy_404)))" by simp
  moreover from radio_stats_all_fail(2) [OF all] none
  have s: "status_code (snd (radio_stats env_legacy_404)) = 500"
    by (simp add: failure_reply_def)
  moreover from s have "snd (radio_stats env_legacy_404) \<noteq>
     \<lparr>status_code = 200, payload = JObj [(''songtitle'', JStr ''g'')]\<rparr>"
    by auto
  ultimately show ?thesis using f by (simp add: seven_letters_fields)
qed

text \<open>
  Claim C2, amended.  When the legacy attempt is reached and the response for \<open>7.html\<close> is
  ok with a body that, split on commas, yields at least seven fields, the proxy replies
  with the object whose only member \<open>songtitle\<close> is the seventh field.
\<close>

theorem legacy_reply:
  assumes reached: "legacy_request \<in> set (requests (fst (radio_stats e)))"
    and resolved: "fetch e legacy_request = Resolved r"
    and ok: "ok r"
    and readable: "body r = Inr text"
    and seven: "7 \<le> length (js_split '','' text)"
  shows "snd (radio_stats e) =
           \<lparr>status_code = 200,
            payload = JObj [(''songtitle'', JStr (js_split '','' text ! 6))]\<rparr>"
proof -
  from resolved ok readable seven
  have "legacy_songtitle e = Some (js_split '','' text ! 6)"
    by (simp add: legacy_songtitle_def)
  with radio_stats_all_fail(2) [OF reached_legacy [OF reached]] show ?thesis by simp
qed

text \<open>The amended claim C2 where only \<open>7.html\<close> answers, with a status line.\<close>

theorem legacy_reply_witness:
  "legacy_request \<in> set (requests (fst (radio_stats env_legacy))) \<and>
   fetch env_legacy legacy_request =
     Resolved \<lparr>http_status = 200, content_type = None,
               body = Inr ''1,1,5,99,1,128,Artist - Song''\<rparr> \<and>
   ok \<lparr>http_status = 200, content_type = None,
       body = Inr ''1,1,5,99,1,128,Artist - Song''\<rparr> \<and>
   7 \<le> length (js_split '','' ''1,1,5,99,1,128,Artist - Song'') \<and>
   snd (radio_stats env_legacy) =
     \<lparr>status_code = 200, payload = JObj [(''songtitle'', JStr ''Artist - Song'')]\<rparr>"
proof -
  let ?r = "\<lparr>http_status = 200, content_type = None,
             body = Inr ''1,1,5,99,1,128,Artist - Song''\<rparr>"
  note all = env_legacy_bodies
  from radio_stats_all_fail(1) [OF all]
  have reached: "legacy_request \<in> set (requests (fst (radio_stats env_legacy)))" by simp
  have f: "fetch env_legacy legacy_request = Resolved ?r"
    by (simp add: env_legacy_def legacy_request_def legacy_url_def)
  have k: "ok ?r" by (simp add: ok_def)
  have b: "body ?r = Inr ''1,1,5,99,1,128,Artist - Song''" by simp
  have n: "7 \<le> length (js_split '','' ''1,1,5,99,1,128,Artist - Song'')"
    by (simp add: status_line_fields)
  from legacy_reply [OF reached f k b n]
  have "snd (radio_stats env_legacy) =
     \<lparr>status_code = 200, payload = JObj [(''songtitle'', JStr ''Artist - Song'')]\<rparr>"
    by (simp add: status_line_fields)
  with reached f k n show ?thesis by blast
qed

text \<open>
  Claim C3.  The proxy replies with status 500 exactly when each of the three JSON
  endpoints fails and the legacy attempt fails or yields fewer than seven fields; the reply
  is then the generic error object.  In every other case the status is 200 and the payload
  is the parsed body of an endpoint or the \<open>songtitle\<close> object of the legacy attempt.
\<close>

theorem failure_iff_all_fail:
  "(status_code (snd (radio_stats e)) = 500) =
     ((\<forall>u\<in>set endpoints. parsed_body e u = None) \<and> legacy_songtitle e = None)
   \<and> (status_code (snd (radio_stats e)) = 500 \<longrightarrow>
        payload (snd (radio_stats e)) =
          JObj [(''error'', JStr ''Failed to fetch metadata from all sources''),
                (''details'', JStr (case lastError (fst (radio_stats e)) of
                                      None \<Rightarrow> ''null'' | Some m \<Rightarrow> m))])
   \<and> (status_code (snd (radio_stats e)) \<noteq> 500 \<longrightarrow>
        status_code (snd (radio_stats e)) = 200 \<and>
        ((\<exists>u\<in>set endpoints. parsed_body e u = Some (payload (snd (radio_stats e)))) \<or>
         (\<exists>f. legacy_songtitle e = Some f \<and>
              payload (snd (radio_stats e)) = JObj [(''songtitle'', JStr f)])))"
proof (cases rule: first_success_cases [of endpoints e])
  case fail
  show ?thesis
  proof (cases "legacy_songtitle e")
    case None
    with radio_stats_all_fail(2) [OF fail] fail show ?thesis
      by (simp add: failure_reply_def)
  next
    case (Some f)
    with radio_stats_all_fail(2) [OF fail] fail show ?thesis
      by simp
  qed
next
  case (success pre u post d)
  from radio_stats_success(1) [OF success]
  have r: "snd (radio_stats e) = \<lparr>status_code = 200, payload = d\<rparr>" by simp
  have "u \<in> set endpoints" by (subst success(1)) simp
  with success(3) r show ?thesis by auto
qed

text \<open>Claim C3 where the server is down, and where \<open>status-json.xsl\<close> answers.\<close>

theorem failure_iff_all_fail_witness:
  "status_code (snd (radio_stats env_down)) = 500 \<and>
   list_all (\<lambda>u. parsed_body env_down u = None) endpoints \<and>
   legacy_songtitle env_down = None \<and>
   payload (snd (radio_stats env_down)) =
     JObj [(''error'', JStr ''Failed to fetch metadata from all sources''),
           (''details'', JStr (case lastError (fst (radio_stats env_down)) of
                                 None \<Rightarrow> ''null'' | Some m \<Rightarrow> m))] \<and>
   parsed_body env_second (endpoints ! 1) = Some (JObj []) \<and>
   status_code (snd (radio_stats env_second)) = 200"
proof -
  have down: "\<forall>u\<in>set endpoints. parsed_body env_down u = None"
    by (simp add: env_down_bodies)
  have leg: "legacy_songtitle env_down = None"
    by (simp add: legacy_songtitle_def env_down_def)
  from failure_iff_all_fail [of env_down] down leg
  have "status_code (snd (radio_stats env_down)) = 500"
    and "payload (snd (radio_stats env_down)) =
     JObj [(''error'', JStr ''Failed to fetch metadata from all sources''),
           (''details'', JStr (case lastError (fst (radio_stats env_down)) of
                                 None \<Rightarrow> ''null'' | Some m \<Rightarrow> m))]"
    by simp_all
  moreover have "endpoints ! 1 \<in> set endpoints" by (simp add: endpoints_def)
  with failure_iff_all_fail [of env_second] env_second_bodies(2)
  have "status_code (snd (radio_stats env_second)) = 200"
    by (metis option.distinct(1))
  moreover from down have "list_all (\<lambda>u. parsed_body env_down u = None) endpoints"
    by (simp add: list_all_iff)
  ultimately show ?thesis using leg env_second_bodies(2) by blast
qed

text \<open>
  Claim C6 as it is stated fails.  When the server is down the four requests carry the
  timeouts 4000, 4000, 4000 and 3000: they are not one and the same.
\<close>

theorem timeouts_counterexample:
  "map timeout (requests (fst (radio_stats env_down))) = [4000, 4000, 4000, 3000]"
proof -
  have "\<forall>u\<in>set endpoints. parsed_body env_down u = None"
    by (simp add: env_down_bodies)
  from radio_stats_all_fail(1) [OF this] show ?thesis
    by (simp add: endpoints_def json_request_def legacy_request_def)
qed

lemma timeout_json_request: "map (timeout \<circ> json_request) us = replicate (length us) 4000"
  by (induction us) (simp_all add: json_request_def)

text \<open>
  Claim C6, amended.  The timeouts of the requests of one run are an initial part of
  4000, 4000, 4000, 3000: every request to a JSON endpoint has the fixed timeout 4000, the
  request for \<open>7.html\<close> has the fixed timeout 3000, and no timeout is larger than the one
  before it.
\<close>

theorem timeouts_fixed:
  "prefix (map timeout (requests (fst (radio_stats e)))) [4000, 4000, 4000, 3000]
   \<and> (\<forall>rq\<in>set (requests (fst (radio_stats e))).
        timeout rq = (if url rq = legacy_url then 3000 else 4000))"
proof (cases rule: first_success_cases [of endpoints e])
  case fail
  from radio_stats_all_fail(1) [OF fail]
  have q: "requests (fst (radio_stats e)) = map json_request endpoints @ [legacy_request]" .
  have "map timeout (requests (fst (radio_stats e))) = [4000, 4000, 4000, 3000]"
    by (simp add: q endpoints_def json_request_def legacy_request_def)
  moreover have "\<forall>rq\<in>set (requests (fst (radio_stats e))).
        timeout rq = (if url rq = legacy_url then 3000 else 4000)"
    by (simp add: q endpoints_def json_request_def legacy_request_def legacy_url_def)
  ultimately show ?thesis by simp
next
  case (success pre u post d)
  from radio_stats_success(2) [OF success]
  have q: "requests (fst (radio_stats e)) = map json_request (pre @ [u])" .
  have sub: "set (pre @ [u]) \<subseteq> set endpoints"
    by (subst success(1)) auto
  have "length (pre @ [u]) \<le> length (pre @ u # post)" by simp
  then have "length (pre @ [u]) \<le> length endpoints"
    by (simp only: success(1) [symmetric])
  then have len: "length (pre @ [u]) \<le> 3" by (simp add: endpoints_def)
  have "map timeout (requests (fst (radio_stats e))) = replicate (length (pre @ [u])) 4000"
    unfolding q by (simp only: map_map timeout_json_request)
  also have "prefix \<dots> (replicate 3 4000 @ [3000])"
    using len by (metis prefix_append le_iff_add replicate_add prefixI)
  finally have p: "prefix (map timeout (requests (fst (radio_stats e)))) [4000, 4000, 4000, 3000]"
    by (simp add: numeral_3_eq_3)
  have "\<forall>rq\<in>set (requests (fst (radio_stats e))).
        timeout rq = (if url rq = legacy_url then 3000 else 4000)"
  proof
    fix rq assume "rq \<in> set (requests (fst (radio_stats e)))"
    with q obtain v where v: "v \<in> set (pre @ [u])" "rq = json_request v" by auto
    with sub legacy_url_not_endpoint have "v \<noteq> legacy_url" by blast
    with v show "timeout rq = (if url rq = legacy_url then 3000 else 4000)"
      by (simp add: json_request_def)
  qed
  with p show ?thesis by simp
qed

text \<open>The amended claim C6 at the first and the last request when the server is down.\<close>

theorem timeouts_fixed_witness:
  "legacy_request \<in> set (requests (fst (radio_stats env_down))) \<and>
   timeout legacy_request = 3000 \<and>
   json_request (endpoints ! 0) \<in> set (requests (fst (radio_stats env_down))) \<and>
   timeout (json_request (endpoints ! 0)) = 4000"
proof -
  have "\<forall>u\<in>set endpoints. parsed_body env_down u = None"
    by (simp add: env_down_bodies)
  from radio_stats_all_fail(1) [OF this]
  have m: "legacy_request \<in> set (requests (fst (radio_stats env_down)))"
    "json_request (endpoints ! 0) \<in> set (requests (fst (radio_stats env_down)))"
    by (simp_all add: endpoints_def)
  have u: "url legacy_request = legacy_url"
    "url (json_request (endpoints ! 0)) \<noteq> legacy_url"
    by (simp_all add: legacy_request_def json_request_def endpoints_def legacy_url_def)
  from timeouts_fixed [of env_down] m u
  have "timeout legacy_request = 3000" "timeout (json_request (endpoints ! 0)) = 4000"
    by auto
  with m show ?thesis by blast
qed

section \<open>Splitting and joining\<close>

lemma cut_Some: "cut sep s = Some (b, a) \<Longrightarrow> s = b @ sep @ a"
proof (induction s arbitrary: b)
  case Nil
  then show ?case by (simp split: if_splits)
next
  case (Cons c cs)
  show ?case
  proof (cases "prefix sep (c # cs)")
    case True
    with Cons.prems have "b = []" "a = drop (length sep) (c # cs)" by simp_all
    moreover from True have "c # cs = sep @ drop (length sep) (c # cs)"
      by (metis append_eq_conv_conj prefix_def)
    ultimately show ?thesis by simp
  next
    case False
    with Cons.prems obtain b' where "cut sep cs = Some (b', a)" "b = c # b'"
      by (auto split: prod.splits)
    with Cons.IH show ?thesis by simp
  qed
qed

lemma cut_first: "cut sep s = Some (b, a) \<Longrightarrow> i < length b \<Longrightarrow> \<not> prefix sep (drop i s)"
proof (induction s arbitrary: b i)
  case Nil
  then show ?case by (simp split: if_splits)
next
  case (Cons c cs)
  show ?case
  proof (cases "prefix sep (c # cs)")
    case True
    with Cons.prems show ?thesis by simp
  next
    case False
    with Cons.prems obtain b' where b': "cut sep cs = Some (b', a)" "b = c # b'"
      by (auto split: prod.splits)
    show ?thesis
    proof (cases i)
      case 0
      with False show ?thesis by simp
    next
      case (Suc k)
      with Cons.prems(2) b'(2) have "k < length b'" by simp
      from Cons.IH [OF b'(1) this] Suc show ?thesis by simp
    qed
  qed
qed

lemma js_split_nonempty: "sep \<noteq> [] \<Longrightarrow> js_split sep s \<noteq> []"
  by (subst js_split.simps) (simp split: option.splits prod.splits)

lemma js_join_Cons: "ps \<noteq> [] \<Longrightarrow> js_join sep (p # ps) = p @ sep @ js_join sep ps"
  by (cases ps) simp_all

lemma js_join_split: "sep \<noteq> [] \<Longrightarrow> js_join sep (js_split sep s) = s"
proof (induction sep s rule: js_split.induct)
  case (1 sep s)
  show ?case
  proof (cases "cut sep s")
    case None
    with "1.prems" show ?thesis by (subst js_split.simps) simp
  next
    case (Some found)
    obtain b a where found: "found = (b, a)" by (cases found)
    with Some have c: "cut sep s = Some (b, a)" by simp
    from "1.IH" [OF "1.prems" Some found [symmetric] "1.prems"]
    have "js_join sep (js_split sep a) = a" .
    moreover from c "1.prems" have "js_split sep s = b # js_split sep a"
      by (subst js_split.simps) simp
    ultimately show ?thesis
      using cut_Some [OF c] js_split_nonempty [OF "1.prems", of a]
      by (simp add: js_join_Cons)
  qed
qed

section \<open>Artist and title\<close>

lemma derive_parts:
  assumes "cut '' - '' st = Some (b, a)"
  shows "artistName st = Some b" and "js_join '' - '' (songParts st) = a"
proof -
  from assms have s: "js_split '' - '' st = b # js_split '' - '' a"
    by (subst js_split.simps) simp
  then show "artistName st = Some b" by (simp add: artistName_def)
  from s have "songParts st = js_split '' - '' a" by (simp add: songParts_def)
  then show "js_join '' - '' (songParts st) = a" by (simp add: js_join_split)
qed

text \<open>
  Claim C9 as it is stated fails.  The songtitle \<open> - Song\<close> contains the separator, the text
  before the first separator is empty, and the derived artist is the station's name:
  artist, separator and title do not give the songtitle back.
\<close>

theorem derivation_counterexample:
  "js_includes '' - Song'' '' - '' \<and>
   cut '' - '' '' - Song'' = Some ('''', ''Song'') \<and>
   artist_or SoundPop '' - Song'' = ''SoundPop'' \<and>
   songTitle '' - Song'' = ''Song'' \<and>
   artist_or SoundPop '' - Song'' @ '' - '' @ songTitle '' - Song'' \<noteq> '' - Song''"
proof -
  have c: "cut '' - '' '' - Song'' = Some ('''', ''Song'')" by simp
  from derive_parts [OF c]
  have "artist_or SoundPop '' - Song'' = ''SoundPop''" "songTitle '' - Song'' = ''Song''"
    by (simp_all add: artist_or_def songTitle_def SoundPop_def)
  with c show ?thesis by (simp add: js_includes_def)
qed

text \<open>
  Claim C9, amended.  Let the separator occur in the songtitle, \<open>b\<close> being the text before
  its first occurrence and \<open>a\<close> the remainder after it.  The derived artist is \<open>b\<close> unless
  \<open>b\<close> is empty, when it is the station's name; the derived title is \<open>a\<close>, with its
  separators, unless \<open>a\<close> is empty, when it is the whole songtitle.  When neither is empty,
  artist, separator and title give the songtitle back.
\<close>

theorem derivation_lossless:
  assumes "cut '' - '' st = Some (b, a)"
  shows "st = b @ '' - '' @ a \<and>
         (\<forall>i<length b. \<not> prefix '' - '' (drop i st)) \<and>
         artist_or dflt st = (if b \<noteq> [] then b else dflt) \<and>
         songTitle st = (if a \<noteq> [] then a else st) \<and>
         (b \<noteq> [] \<and> a \<noteq> [] \<longrightarrow> artist_or dflt st @ '' - '' @ songTitle st = st)"
proof -
  note parts = derive_parts [OF assms]
  have whole: "st = b @ '' - '' @ a" by (rule cut_Some [OF assms])
  have first: "\<forall>i<length b. \<not> prefix '' - '' (drop i st)"
    using cut_first [OF assms] by blast
  have artist: "artist_or dflt st = (if b \<noteq> [] then b else dflt)"
    by (simp add: artist_or_def parts(1))
  have title: "songTitle st = (if a \<noteq> [] then a else st)"
    by (simp add: songTitle_def parts(2))
  from whole artist title
  have "b \<noteq> [] \<and> a \<noteq> [] \<longrightarrow> artist_or dflt st @ '' - '' @ songTitle st = st"
    by simp
  with whole first artist title show ?thesis by blast
qed

text \<open>The amended claim C9 at a songtitle with two separators.\<close>

theorem derivation_lossless_witness:
  "cut '' - '' ''A - B - C'' = Some (''A'', ''B - C'') \<and>
   artist_or SoundPop ''A - B - C'' = ''A'' \<and>
   songTitle ''A - B - C'' = ''B - C'' \<and>
   artist_or SoundPop ''A - B - C'' @ '' - '' @ songTitle ''A - B - C'' = ''A - B - C''"
proof -
  have c: "cut '' - '' ''A - B - C'' = Some (''A'', ''B - C'')" by simp
  from derivation_lossless [OF c, of SoundPop] c show ?thesis by simp
qed

section \<open>The play history\<close>

lemma setHistory_history:
  "(history (setHistory t a cv now p) = history p \<and>
    radio_history (setHistory t a cv now p) = radio_history p) \<or>
   (\<exists>x. timestamp x = now \<and>
        history (setHistory t a cv now p) = take 10 (x # history p) \<and>
        radio_history (setHistory t a cv now p) = Some (take 10 (x # history p)))"
  by (simp add: setHistory_def Let_def split: list.splits)

lemma metadataError_history:
  "history (metadataError err p) = history p"
  "radio_history (metadataError err p) = radio_history p"
  by (simp_all add: metadataError_def)

lemma fetchMetadata_history:
  "(history (fetchMetadata c resp now p) = history p \<and>
    radio_history (fetchMetadata c resp now p) = radio_history p) \<or>
   (\<exists>x. timestamp x = now \<and>
        history (fetchMetadata c resp now p) = take 10 (x # history p) \<and>
        radio_history (fetchMetadata c resp now p) = Some (take 10 (x # history p)))"
proof (cases resp)
  case (FetchRejected m)
  then show ?thesis by (simp add: fetchMetadata_def metadataError_history)
next
  case (JsonRejected m)
  then show ?thesis by (simp add: fetchMetadata_def metadataError_history)
next
  case (Data data)
  show ?thesis
  proof (cases "if truthy data then member data ''songtitle'' else None")
    case None
    with Data show ?thesis by (simp add: fetchMetadata_def)
  next
    case (Some v)
    show ?thesis
    proof (cases "truthy v")
      case False
      with Data Some show ?thesis by (simp add: fetchMetadata_def)
    next
      case True
      show ?thesis
      proof (cases v)
        case (JStr st)
        obtain cv logs where cv: "c (artist_or SoundPop st) (songTitle st) = (cv, logs)"
          by (cases "c (artist_or SoundPop st) (songTitle st)")
        let ?p = "p\<lparr>browser_console := browser_console p @ logs,
                     metadata := \<lparr>songtitle = songTitle st,
                                  artist = Some (artist_or SoundPop st), title = None,
                                  cover = cv, status = online\<rparr>,
                     lyrics := None, showLyrics := False\<rparr>"
        from Data Some True JStr cv
        have "fetchMetadata c resp now p =
                setHistory (songTitle st) (artist_or SoundPop st) cv now ?p"
          by (simp add: fetchMetadata_def Let_def)
        with setHistory_history [of "songTitle st" "artist_or SoundPop st" cv now ?p]
        show ?thesis by simp
      qed (use Data Some True in \<open>simp_all add: fetchMetadata_def metadataError_history\<close>)
    qed
  qed
qed

lemma stored_fresh: "stored fresh"
  by (simp add: stored_def fresh_def mount_def)

lemma stored_mount:
  "stored p \<Longrightarrow> stored (mount (radio_liked p) (radio_history p) (browser_console p))"
  by (simp add: stored_def mount_def)

lemma history_mount:
  "stored p \<Longrightarrow> history (mount (radio_liked p) (radio_history p) (browser_console p)) = history p"
  by (simp add: stored_def mount_def)

lemma stored_fetchMetadata: "stored p \<Longrightarrow> stored (fetchMetadata c resp now p)"
  using fetchMetadata_history [of c resp now p] by (auto simp: stored_def)

lemma stored_run: "stored p \<Longrightarrow> stored (run c es p)"
proof (induction es arbitrary: p)
  case Nil
  then show ?case by simp
next
  case (Cons ev es)
  then show ?case
    by (cases ev) (simp_all add: stored_mount stored_fetchMetadata)
qed

lemma newest_first_push:
  assumes "newest_first h" and "\<forall>y\<in>set h. timestamp y \<le> timestamp x"
  shows "newest_first (take 10 (x # h))"
proof -
  from assms have "sorted_wrt (\<lambda>x y. timestamp y \<le> timestamp x) (x # h)"
    by (simp add: newest_first_def)
  then show ?thesis
    unfolding newest_first_def by (rule sorted_wrt_take)
qed

lemma newest_first_run:
  assumes "stored p" and "sorted (poll_times es)" and "newest_first (history p)"
    and "\<forall>y\<in>set (history p). \<forall>t\<in>set (poll_times es). timestamp y \<le> t"
  shows "newest_first (history (run c es p))"
  using assms
proof (induction es arbitrary: p)
  case Nil
  then show ?case by simp
next
  case (Cons ev es)
  show ?case
  proof (cases ev)
    case Mount
    let ?q = "mount (radio_liked p) (radio_history p) (browser_console p)"
    from Cons.prems(1) have h: "history ?q = history p" by (rule history_mount)
    from Cons.prems Mount h
    have "newest_first (history (run c es ?q))"
      by (intro Cons.IH) (simp_all add: stored_mount)
    with Mount show ?thesis by simp
  next
    case (Poll resp now)
    let ?q = "fetchMetadata c resp now p"
    from Cons.prems(2) Poll have times: "sorted (poll_times es)" "\<forall>t\<in>set (poll_times es). now \<le> t"
      by simp_all
    from Cons.prems(4) Poll have old: "\<forall>y\<in>set (history p). timestamp y \<le> now"
      and later: "\<forall>y\<in>set (history p). \<forall>t\<in>set (poll_times es). timestamp y \<le> t"
      by simp_all
    have nf: "newest_first (history ?q)"
      and bound: "\<forall>y\<in>set (history ?q). \<forall>t\<in>set (poll_times es). timestamp y \<le> t"
    proof -
      from fetchMetadata_history [of c resp now p]
      consider (same) "history ?q = history p"
        | (push) x where "timestamp x = now" "history ?q = take 10 (x # history p)"
        by blast
      then have "newest_first (history ?q) \<and>
        (\<forall>y\<in>set (history ?q). \<forall>t\<in>set (poll_times es). timestamp y \<le> t)"
      proof cases
        case same
        with Cons.prems(3) later show ?thesis by simp
      next
        case push
        from Cons.prems(3) old push(1)
        have "newest_first (take 10 (x # history p))"
          by (intro newest_first_push) simp_all
        moreover have "\<forall>y\<in>set (take 10 (x # history p)). \<forall>t\<in>set (poll_times es). timestamp y \<le> t"
        proof (intro ballI)
          fix y t assume y: "y \<in> set (take 10 (x # history p))" and t: "t \<in> set (poll_times es)"
          from y have "y \<in> set (x # history p)" by (rule in_set_takeD)
          with push(1) times(2) later t show "timestamp y \<le> t" by auto
        qed
        ultimately show ?thesis using push(2) by simp
      qed
      then show "newest_first (history ?q)"
        and "\<forall>y\<in>set (history ?q). \<forall>t\<in>set (poll_times es). timestamp y \<le> t"
        by simp_all
    qed
    from stored_fetchMetadata [OF Cons.prems(1)] times(1) nf bound
    have "newest_first (history (run c es ?q))" by (rule Cons.IH)
    with Poll show ?thesis by simp
  qed
qed

text \<open>
  A poll that reports a track whose derived title or artist differs from the head of the
  history (or that finds the history empty) records it.
\<close>

lemma recorded_when_new:
  assumes "member data ''songtitle'' = Some (JStr st)" and "st \<noteq> []"
    and "c (artist_or SoundPop st) (songTitle st) = (cv, logs)"
    and "case history p of [] \<Rightarrow> True
         | x # xs \<Rightarrow> item_songtitle x \<noteq> songTitle st \<or> item_artist x \<noteq> artist_or SoundPop st"
  shows "history (fetchMetadata c (Data data) now p) =
           take 10 (\<lparr>item_songtitle = songTitle st, item_artist = artist_or SoundPop st,
                     item_cover = cv, timestamp = now\<rparr> # history p)"
    and "radio_history (fetchMetadata c (Data data) now p) =
           Some (take 10 (\<lparr>item_songtitle = songTitle st, item_artist = artist_or SoundPop st,
                           item_cover = cv, timestamp = now\<rparr> # history p))"
proof -
  from assms(1) have "truthy data" by (cases data) simp_all
  with assms have "history (fetchMetadata c (Data data) now p) =
           take 10 (\<lparr>item_songtitle = songTitle st, item_artist = artist_or SoundPop st,
                     item_cover = cv, timestamp = now\<rparr> # history p) \<and>
         radio_history (fetchMetadata c (Data data) now p) =
           Some (take 10 (\<lparr>item_songtitle = songTitle st, item_artist = artist_or SoundPop st,
                           item_cover = cv, timestamp = now\<rparr> # history p))"
    by (cases "history p") (auto simp: fetchMetadata_def setHistory_def Let_def)
  then show "history (fetchMetadata c (Data data) now p) =
           take 10 (\<lparr>item_songtitle = songTitle st, item_artist = artist_or SoundPop st,
                     item_cover = cv, timestamp = now\<rparr> # history p)"
    and "radio_history (fetchMetadata c (Data data) now p) =
           Some (take 10 (\<lparr>item_songtitle = songTitle st, item_artist = artist_or SoundPop st,
                           item_cover = cv, timestamp = now\<rparr> # history p))"
    by simp_all
qed

text \<open>
  Claim C4.  Whatever polls and reloads a browser goes through from its first load, the
  history never has more than ten entries, and neither has the list in local storage.  A
  poll leaves history and storage as they are, or it puts one new entry, stamped with the
  time of the poll, at the head, cuts the list to its first ten entries and stores that list.
  It does the second whenever it reports a songtitle whose derived title or artist differs
  from the head of the history, or the history is empty, and the new entry then holds the
  derived title, the derived artist, the cover that was found and the time of the poll.
  A history of at most ten entries stays so under a poll from any state, and under any
  polls and reloads from a state whose history is what local storage holds.  When the clock
  does not run backwards, the entries are in the order of their time stamps, newest first.
\<close>

theorem history_bounded_newest_first:
  "length (history (run c es fresh)) \<le> 10
   \<and> (\<forall>h. radio_history (run c es fresh) = Some h \<longrightarrow> length h \<le> 10)
   \<and> ((history (fetchMetadata c resp now p) = history p \<and>
        radio_history (fetchMetadata c resp now p) = radio_history p) \<or>
       (\<exists>x. timestamp x = now \<and>
            history (fetchMetadata c resp now p) = take 10 (x # history p) \<and>
            radio_history (fetchMetadata c resp now p) = Some (take 10 (x # history p))))
   \<and> (member data ''songtitle'' = Some (JStr st) \<and> st \<noteq> [] \<and>
       c (artist_or SoundPop st) (songTitle st) = (cv, logs) \<and>
       (case history p of [] \<Rightarrow> True
        | x # xs \<Rightarrow> item_songtitle x \<noteq> songTitle st \<or> item_artist x \<noteq> artist_or SoundPop st)
      \<longrightarrow> history (fetchMetadata c (Data data) now p) =
            take 10 (\<lparr>item_songtitle = songTitle st, item_artist = artist_or SoundPop st,
                      item_cover = cv, timestamp = now\<rparr> # history p) \<and>
          radio_history (fetchMetadata c (Data data) now p) =
            Some (take 10 (\<lparr>item_songtitle = songTitle st, item_artist = artist_or SoundPop st,
                            item_cover = cv, timestamp = now\<rparr> # history p)))
   \<and> (length (history p) \<le> 10 \<longrightarrow> length (history (fetchMetadata c resp now p)) \<le> 10)
   \<and> (stored p \<longrightarrow> length (history (run c es p)) \<le> 10)
   \<and> (sorted (poll_times es) \<longrightarrow>
        sorted_wrt (\<lambda>x y. timestamp y \<le> timestamp x) (history (run c es fresh)))"
proof -
  have s: "stored (run c es fresh)" by (rule stored_run [OF stored_fresh])
  then have "length (history (run c es fresh)) \<le> 10" by (simp add: stored_def)
  moreover from s have "\<forall>h. radio_history (run c es fresh) = Some h \<longrightarrow> length h \<le> 10"
    by (auto simp: stored_def)
  moreover have "sorted (poll_times es) \<longrightarrow>
        sorted_wrt (\<lambda>x y. timestamp y \<le> timestamp x) (history (run c es fresh))"
  proof
    assume "sorted (poll_times es)"
    with stored_fresh have "newest_first (history (run c es fresh))"
      by (rule newest_first_run) (simp_all add: fresh_def mount_def newest_first_def)
    then show "sorted_wrt (\<lambda>x y. timestamp y \<le> timestamp x) (history (run c es fresh))"
      by (simp add: newest_first_def)
  qed
  moreover have "length (history p) \<le> 10 \<longrightarrow>
        length (history (fetchMetadata c resp now p)) \<le> 10"
    using fetchMetadata_history [of c resp now p] by auto
  moreover have "stored p \<longrightarrow> length (history (run c es p)) \<le> 10"
    using stored_run [of p c es] by (simp add: stored_def)
  moreover have "member data ''songtitle'' = Some (JStr st) \<and> st \<noteq> [] \<and>
       c (artist_or SoundPop st) (songTitle st) = (cv, logs) \<and>
       (case history p of [] \<Rightarrow> True
        | x # xs \<Rightarrow> item_songtitle x \<noteq> songTitle st \<or> item_artist x \<noteq> artist_or SoundPop st)
      \<longrightarrow> history (fetchMetadata c (Data data) now p) =
            take 10 (\<lparr>item_songtitle = songTitle st, item_artist = artist_or SoundPop st,
                      item_cover = cv, timestamp = now\<rparr> # history p) \<and>
          radio_history (fetchMetadata c (Data data) now p) =
            Some (take 10 (\<lparr>item_songtitle = songTitle st, item_artist = artist_or SoundPop st,
                            item_cover = cv, timestamp = now\<rparr> # history p))"
    using recorded_when_new [of data st c cv logs p now] by blast
  ultimately show ?thesis using fetchMetadata_history [of c resp now p] by blast
qed

lemma demo_first:
  "history (run no_cover [Poll (now_playing ''A - B'') 1000] fresh) =
     [\<lparr>item_songtitle = ''B'', item_artist = ''A'', item_cover = None, timestamp = 1000\<rparr>]"
  by code_simp

lemma demo_derived: "songTitle ''A - B'' = ''B''" "artist_or SoundPop ''A - B'' = ''A''"
  by code_simp+

lemma demo_first_found:
  "history fresh = []"
  "found_cover (artist_or SoundPop ''A - B'') (songTitle ''A - B'') =
     (Some ''https://example.org/600x600.jpg'', [])"
  by (simp_all add: fresh_def mount_def found_cover_def)

lemma demo_other_artist:
  "songTitle ''C - B'' = ''B''" "artist_or SoundPop ''C - B'' = ''C''"
  "no_cover (artist_or SoundPop ''C - B'') (songTitle ''C - B'') = (None, [])"
  by (code_simp, code_simp, simp add: no_cover_def)

lemma demo_history:
  "history (run no_cover demo_events fresh) =
     [\<lparr>item_songtitle = ''D - E'', item_artist = ''C'', item_cover = None, timestamp = 3000\<rparr>,
      \<lparr>item_songtitle = ''B'', item_artist = ''A'', item_cover = None, timestamp = 1000\<rparr>]"
  "radio_history (run no_cover demo_events fresh) =
     Some [\<lparr>item_songtitle = ''D - E'', item_artist = ''C'', item_cover = None,
             timestamp = 3000\<rparr>,
           \<lparr>item_songtitle = ''B'', item_artist = ''A'', item_cover = None,
             timestamp = 1000\<rparr>]"
  by code_simp+

lemma busy_history:
  "map timestamp (history (run no_cover busy_events fresh)) = [11, 10, 9, 8, 7, 6, 5, 4, 3, 2]"
  by code_simp

lemma busy_times: "poll_times busy_events = [1, 2, 3, 4, 5, 6, 7, 8, 9, 10, 11]"
  by code_simp

text \<open>
  Claim C4 on a browser's life of four polls and a reload, on eleven polls of new tracks,
  where the oldest entry is dropped, on a first track whose cover is found, and on a track
  that has the title of the head and another artist.
\<close>

theorem history_bounded_newest_first_witness:
  "sorted (poll_times demo_events) \<and>
   history (run no_cover demo_events fresh) =
     [\<lparr>item_songtitle = ''D - E'', item_artist = ''C'', item_cover = None, timestamp = 3000\<rparr>,
      \<lparr>item_songtitle = ''B'', item_artist = ''A'', item_cover = None, timestamp = 1000\<rparr>] \<and>
   radio_history (run no_cover demo_events fresh) =
     Some [\<lparr>item_songtitle = ''D - E'', item_artist = ''C'', item_cover = None,
             timestamp = 3000\<rparr>,
           \<lparr>item_songtitle = ''B'', item_artist = ''A'', item_cover = None,
             timestamp = 1000\<rparr>] \<and>
   length (history (run no_cover demo_events fresh)) \<le> 10 \<and>
   sorted_wrt (\<lambda>x y. timestamp y \<le> timestamp x) (history (run no_cover demo_events fresh)) \<and>
   stored fresh \<and>
   sorted (poll_times busy_events) \<and>
   map timestamp (history (run no_cover busy_events fresh)) = [11, 10, 9, 8, 7, 6, 5, 4, 3, 2] \<and>
   length (history (run no_cover busy_events fresh)) \<le> 10 \<and>
   sorted_wrt (\<lambda>x y. timestamp y \<le> timestamp x) (history (run no_cover busy_events fresh)) \<and>
   history (fetchMetadata found_cover (Data (JObj [(''songtitle'', JStr ''A - B'')])) 1000 fresh) =
     [\<lparr>item_songtitle = ''B'', item_artist = ''A'',
       item_cover = Some ''https://example.org/600x600.jpg'', timestamp = 1000\<rparr>] \<and>
   history (fetchMetadata no_cover (Data (JObj [(''songtitle'', JStr ''C - B'')])) 2000
             (run no_cover [Poll (now_playing ''A - B'') 1000] fresh)) =
     [\<lparr>item_songtitle = ''B'', item_artist = ''C'', item_cover = None, timestamp = 2000\<rparr>,
      \<lparr>item_songtitle = ''B'', item_artist = ''A'', item_cover = None, timestamp = 1000\<rparr>]"
proof -
  have m: "member (JObj [(''songtitle'', JStr ''A - B'')]) ''songtitle'' = Some (JStr ''A - B'')"
    "member (JObj [(''songtitle'', JStr ''C - B'')]) ''songtitle'' = Some (JStr ''C - B'')"
    by simp_all
  from history_bounded_newest_first [where c = found_cover and p = fresh and now = 1000
      and data = "JObj [(''songtitle'', JStr ''A - B'')]" and st = "''A - B''"
      and cv = "Some ''https://example.org/600x600.jpg''" and logs = "[]"]
    m(1) demo_first_found demo_derived
  have first: "history (fetchMetadata found_cover
                  (Data (JObj [(''songtitle'', JStr ''A - B'')])) 1000 fresh) =
     [\<lparr>item_songtitle = ''B'', item_artist = ''A'',
       item_cover = Some ''https://example.org/600x600.jpg'', timestamp = 1000\<rparr>]"
    by simp
  from history_bounded_newest_first [where c = no_cover
      and p = "run no_cover [Poll (now_playing ''A - B'') 1000] fresh" and now = 2000
      and data = "JObj [(''songtitle'', JStr ''C - B'')]" and st = "''C - B''"
      and cv = None and logs = "[]"]
    m(2) demo_first demo_other_artist
  have other: "history (fetchMetadata no_cover (Data (JObj [(''songtitle'', JStr ''C - B'')])) 2000
             (run no_cover [Poll (now_playing ''A - B'') 1000] fresh)) =
     [\<lparr>item_songtitle = ''B'', item_artist = ''C'', item_cover = None, timestamp = 2000\<rparr>,
      \<lparr>item_songtitle = ''B'', item_artist = ''A'', item_cover = None, timestamp = 1000\<rparr>]"
    by simp
  have "sorted (poll_times demo_events)" by (simp add: demo_events_def)
  with history_bounded_newest_first [of no_cover demo_events] demo_history
  have "sorted (poll_times demo_events) \<and>
   history (run no_cover demo_events fresh) =
     [\<lparr>item_songtitle = ''D - E'', item_artist = ''C'', item_cover = None, timestamp = 3000\<rparr>,
      \<lparr>item_songtitle = ''B'', item_artist = ''A'', item_cover = None, timestamp = 1000\<rparr>] \<and>
   radio_history (run no_cover demo_events fresh) =
     Some [\<lparr>item_songtitle = ''D - E'', item_artist = ''C'', item_cover = None,
             timestamp = 3000\<rparr>,
           \<lparr>item_songtitle = ''B'', item_artist = ''A'', item_cover = None,
             timestamp = 1000\<rparr>] \<and>
   length (history (run no_cover demo_events fresh)) \<le> 10 \<and>
   sorted_wrt (\<lambda>x y. timestamp y \<le> timestamp x) (history (run no_cover demo_events fresh))"
    by blast
  moreover have "sorted (poll_times busy_events)" by (simp add: busy_times)
  with history_bounded_newest_first [of no_cover busy_events _ _ fresh] busy_history stored_fresh
  have "stored fresh \<and>
   sorted (poll_times busy_events) \<and>
   map timestamp (history (run no_cover busy_events fresh)) = [11, 10, 9, 8, 7, 6, 5, 4, 3, 2] \<and>
   length (history (run no_cover busy_events fresh)) \<le> 10 \<and>
   sorted_wrt (\<lambda>x y. timestamp y \<le> timestamp x) (history (run no_cover busy_events fresh))"
    by blast
  ultimately show ?thesis using first other by blast
qed

text \<open>
  Claim C5.  When the title and the artist derived from the songtitle of an update equal
  those of the head of the history, the update leaves the history, and the list in local
  storage, unchanged.
\<close>

theorem duplicate_not_appended:
  assumes "history p = x # xs"
    and "member data ''songtitle'' = Some (JStr st)"
    and "item_songtitle x = songTitle st"
    and "item_artist x = artist_or SoundPop st"
  shows "history (fetchMetadata c (Data data) now p) = x # xs \<and>
         radio_history (fetchMetadata c (Data data) now p) = radio_history p"
proof (cases "st = []")
  case True
  with assms(1,2) show ?thesis
    by (simp add: fetchMetadata_def)
next
  case False
  from assms(2) have "truthy data" by (cases data) simp_all
  with assms False show ?thesis
    by (simp add: fetchMetadata_def setHistory_def Let_def split: prod.splits)
qed

text \<open>Claim C5 when the same track is reported twice.\<close>

theorem duplicate_not_appended_witness:
  "history (run no_cover [Poll (now_playing ''A - B'') 1000] fresh) =
     [\<lparr>item_songtitle = ''B'', item_artist = ''A'', item_cover = None, timestamp = 1000\<rparr>] \<and>
   member (JObj [(''songtitle'', JStr ''A - B'')]) ''songtitle'' = Some (JStr ''A - B'') \<and>
   songTitle ''A - B'' = ''B'' \<and> artist_or SoundPop ''A - B'' = ''A'' \<and>
   history (fetchMetadata no_cover (Data (JObj [(''songtitle'', JStr ''A - B'')])) 2000
             (run no_cover [Poll (now_playing ''A - B'') 1000] fresh)) =
     [\<lparr>item_songtitle = ''B'', item_artist = ''A'', item_cover = None, timestamp = 1000\<rparr>]"
proof -
  have m: "member (JObj [(''songtitle'', JStr ''A - B'')]) ''songtitle'' = Some (JStr ''A - B'')"
    by simp
  from duplicate_not_appended [OF demo_first m, of no_cover 2000] demo_derived
  have "history (fetchMetadata no_cover (Data (JObj [(''songtitle'', JStr ''A - B'')])) 2000
             (run no_cover [Poll (now_playing ''A - B'') 1000] fresh)) =
     [\<lparr>item_songtitle = ''B'', item_artist = ''A'', item_cover = None, timestamp = 1000\<rparr>]"
    by simp
  with demo_first m demo_derived show ?thesis by blast
qed

text \<open>
  Claim C7.  When the fetch of the metadata rejects, or the parsing of the response
  rejects, \<open>fetchMetadata\<close> returns normally: it writes one line with the error to the
  console and shows the placeholder \<open>Erro ao carregar metadados\<close> (\<open>Sintonizando...\<close> in
  components/RadioPlayer.tsx) with the station's name as the artist and the status online.
\<close>

theorem fetch_failure_placeholder:
  "(resp = FetchRejected m \<and> err = FetchFailed m \<or> resp = JsonRejected m \<and> err = JsonFailed m
    \<longrightarrow> songtitle (metadata (fetchMetadata c resp now p)) = ''Erro ao carregar metadados'' \<and>
        artist (metadata (fetchMetadata c resp now p)) = Some ''SoundPop'' \<and>
        status (metadata (fetchMetadata c resp now p)) = online \<and>
        browser_console (fetchMetadata c resp now p) =
          browser_console p @ [MetadataFetchError err])
   \<and> (resp = FetchRejected m \<and> err = FetchFailed m \<or> resp = JsonRejected m \<and> err = JsonFailed m
    \<longrightarrow> songtitle (metadata (fetchMetadata0 resp p0)) = ''Sintonizando...'' \<and>
        artist (metadata (fetchMetadata0 resp p0)) = Some Radio_Fox \<and>
        status (metadata (fetchMetadata0 resp p0)) = online \<and>
        browser_console (fetchMetadata0 resp p0) =
          browser_console p0 @ [MetadataFetchError err])"
  by (auto simp: fetchMetadata_def fetchMetadata0_def metadataError_def metadataError0_def
      SoundPop_def)

text \<open>Claim C7 at a refused fetch and at a body that is not JSON.\<close>

theorem fetch_failure_placeholder_witness:
  "songtitle (metadata (fetchMetadata no_cover (FetchRejected ''Failed to fetch'') 4000 fresh))
     = ''Erro ao carregar metadados'' \<and>
   browser_console (fetchMetadata no_cover (FetchRejected ''Failed to fetch'') 4000 fresh)
     = [MetadataFetchError (FetchFailed ''Failed to fetch'')] \<and>
   songtitle (metadata (fetchMetadata0 (JsonRejected ''Unexpected token'')
                          (player_base.truncate fresh)))
     = ''Sintonizando...''"
proof -
  have "browser_console fresh = []" by (simp add: fresh_def mount_def)
  with fetch_failure_placeholder [of "FetchRejected ''Failed to fetch''" "''Failed to fetch''"
      "FetchFailed ''Failed to fetch''" no_cover 4000 fresh]
    fetch_failure_placeholder [of "JsonRejected ''Unexpected token''" "''Unexpected token''"
      "JsonFailed ''Unexpected token''" _ _ _ "player_base.truncate fresh"]
  show ?thesis by simp
qed

text \<open>
  Claim C10.  When \<open>fetchMetadata\<close> ends in its \<open>catch\<close> (the fetch rejects, the parsing
  rejects, or the songtitle is not a string), the history and both keys of local storage
  are unchanged, the title and the cover of the metadata are unchanged, and putting the old
  metadata and the old console back gives the old state: nothing else was touched.
\<close>

theorem fetch_failure_frame:
  assumes "resp = FetchRejected m \<or> resp = JsonRejected m \<or>
           (resp = Data data \<and> member data ''songtitle'' = Some v \<and> truthy v \<and>
            (\<forall>st. v \<noteq> JStr st))"
  shows "history (fetchMetadata c resp now p) = history p \<and>
         radio_history (fetchMetadata c resp now p) = radio_history p \<and>
         radio_liked (fetchMetadata c resp now p) = radio_liked p \<and>
         title (metadata (fetchMetadata c resp now p)) = title (metadata p) \<and>
         cover (metadata (fetchMetadata c resp now p)) = cover (metadata p) \<and>
         (fetchMetadata c resp now p)
           \<lparr>metadata := metadata p, browser_console := browser_console p\<rparr> = p"
proof -
  from assms have "\<exists>err. fetchMetadata c resp now p = metadataError err p"
  proof (elim disjE conjE)
    assume d: "resp = Data data" "member data ''songtitle'' = Some v" "truthy v"
      "\<forall>st. v \<noteq> JStr st"
    from d(2) have "truthy data" by (cases data) simp_all
    with d have "fetchMetadata c resp now p = metadataError NotAFunction p"
      by (cases v) (simp_all add: fetchMetadata_def)
    then show ?thesis by blast
  qed (auto simp: fetchMetadata_def)
  then obtain err where "fetchMetadata c resp now p = metadataError err p" by blast
  then show ?thesis by (simp add: metadataError_def)
qed

text \<open>Claim C10 at a refused fetch after one track was played.\<close>

theorem fetch_failure_frame_witness:
  "history (fetchMetadata no_cover (FetchRejected ''Failed to fetch'') 4000
             (run no_cover [Poll (now_playing ''A - B'') 1000] fresh)) =
     [\<lparr>item_songtitle = ''B'', item_artist = ''A'', item_cover = None, timestamp = 1000\<rparr>] \<and>
   radio_history (fetchMetadata no_cover (FetchRejected ''Failed to fetch'') 4000
             (run no_cover [Poll (now_playing ''A - B'') 1000] fresh)) =
     radio_history (run no_cover [Poll (now_playing ''A - B'') 1000] fresh)"
  using fetch_failure_frame [of "FetchRejected ''Failed to fetch''" "''Failed to fetch''" _ _
      no_cover 4000 "run no_cover [Poll (now_playing ''A - B'') 1000] fresh"] demo_first
  by simp

section \<open>The polling timer\<close>

lemma fetch_times_eq:
  "fetch_times playing t0 n = t0 # map (\<lambda>k. t0 + k * 10000) [1..<Suc n]"
  by (simp add: fetch_times_def metadata_effect_def progress_effect_def)

lemma fetch_times_nth: "i \<le> n \<Longrightarrow> fetch_times playing t0 n ! i = t0 + i * 10000"
proof (cases i)
  case 0
  then show ?thesis by (simp add: fetch_times_eq)
next
  case (Suc j)
  assume "i \<le> n"
  with Suc have "j < n" by simp
  then have "[1..<Suc n] ! j = Suc j" by (simp del: upt_Suc)
  with \<open>j < n\<close> Suc show ?thesis by (simp add: fetch_times_eq del: upt_Suc)
qed

text \<open>
  Claim C8.  The effect calls \<open>fetchMetadata\<close> once at once and registers one interval for
  it, of 10 times 1000 milliseconds; no other call or timer of the component runs
  \<open>fetchMetadata\<close>, whether the stream plays or not.  On a component mounted at \<open>t0\<close> the
  fetches therefore start at \<open>t0\<close>, \<open>t0 + 10000\<close>, \<open>t0 + 20000\<close> and so on: each starts
  exactly 10000 milliseconds after the one before, whatever the earlier fetches returned.
\<close>

theorem metadata_polling_period:
  "metadata_effect = [Call FetchMetadata, SetInterval FetchMetadata (10 * 1000)]
   \<and> filter (\<lambda>c. callback_of c = FetchMetadata) (metadata_effect @ progress_effect playing) =
       [Call FetchMetadata, SetInterval FetchMetadata (10 * 1000)]
   \<and> fetch_times playing t0 n = t0 # map (\<lambda>k. t0 + k * (10 * 1000)) [1..<Suc n]
   \<and> length (fetch_times playing t0 n) = Suc n
   \<and> (\<forall>i<n. fetch_times playing t0 n ! Suc i = fetch_times playing t0 n ! i + 10 * 1000)"
proof -
  have "\<forall>i<n. fetch_times playing t0 n ! Suc i = fetch_times playing t0 n ! i + 10 * 1000"
    by (simp add: fetch_times_nth)
  moreover have "length (fetch_times playing t0 n) = Suc n"
    by (simp add: fetch_times_eq del: upt_Suc)
  moreover have "filter (\<lambda>c. callback_of c = FetchMetadata)
       (metadata_effect @ progress_effect playing) =
       [Call FetchMetadata, SetInterval FetchMetadata (10 * 1000)]"
    by (simp add: metadata_effect_def progress_effect_def)
  ultimately show ?thesis
    by (simp add: fetch_times_eq metadata_effect_def)
qed

text \<open>Claim C8 on a component mounted at the time 5000 and unmounted after three ticks.\<close>

theorem metadata_polling_period_witness:
  "fetch_times True 5000 3 = [5000, 15000, 25000, 35000] \<and>
   fetch_times False 5000 3 = [5000, 15000, 25000, 35000] \<and>
   fetch_times True 5000 3 ! 3 = fetch_times True 5000 3 ! 2 + 10000"
proof -
  have u: "[1..<Suc 3] = [1, 2, 3]" by code_simp
  from metadata_polling_period [of True 5000 3] metadata_polling_period [of False 5000 3] u
  show ?thesis by simp
qed

end
